theory Spec2Isabelle
  imports Complex_Main "HOL-Library.Word"
begin

unbundle bit_operations_syntax

section \<open>Shared types\<close>

type_synonym u8 = "8 word"
type_synonym u32 = "32 word"
type_synonym u64 = "64 word"

text \<open>\<^verbatim>\<open>enum class MiningIntensity : int\<close> of \<^verbatim>\<open>mobile_randomx.h\<close>.\<close>

datatype MiningIntensity = DISABLED | LIGHT | MEDIUM | FULL

text \<open>
  \<^verbatim>\<open>memcpy\<close> between an integer and bytes on the little-endian target: the least
  significant byte comes first.
\<close>

definition le_bytes32 :: "u32 \<Rightarrow> u8 list" where
  "le_bytes32 w = [ucast w, ucast (drop_bit 8 w), ucast (drop_bit 16 w), ucast (drop_bit 24 w)]"

definition le_bytes64 :: "u64 \<Rightarrow> u8 list" where
  "le_bytes64 w = map (\<lambda>i. ucast (drop_bit (8 * i) w)) [0..<8]"

definition le_word32 :: "u8 list \<Rightarrow> u32" where
  "le_word32 bs = foldr (\<lambda>b acc. ucast b OR push_bit 8 acc) (take 4 bs) 0"


section \<open>SHA-256\<close>

text \<open>
  Modelled from the spec: the source calls OpenSSL's \<^verbatim>\<open>SHA256\<close>, which is not
  part of the repository; the specification names the function only as SHA-256. The
  definitions below follow FIPS 180-4 (one-shot hashing of a byte sequence).
\<close>

definition rotr :: "nat \<Rightarrow> u32 \<Rightarrow> u32" where
  "rotr n x = (drop_bit n x) OR (push_bit (32 - n) x)"

definition Ch :: "u32 \<Rightarrow> u32 \<Rightarrow> u32 \<Rightarrow> u32" where
  "Ch x y z = (x AND y) XOR (NOT x AND z)"
definition Maj :: "u32 \<Rightarrow> u32 \<Rightarrow> u32 \<Rightarrow> u32" where
  "Maj x y z = (x AND y) XOR (x AND z) XOR (y AND z)"
definition Sigma0 :: "u32 \<Rightarrow> u32" where "Sigma0 x = rotr 2 x XOR rotr 13 x XOR rotr 22 x"
definition Sigma1 :: "u32 \<Rightarrow> u32" where "Sigma1 x = rotr 6 x XOR rotr 11 x XOR rotr 25 x"
definition sigma0 :: "u32 \<Rightarrow> u32" where "sigma0 x = rotr 7 x XOR rotr 18 x XOR drop_bit 3 x"
definition sigma1 :: "u32 \<Rightarrow> u32" where "sigma1 x = rotr 17 x XOR rotr 19 x XOR drop_bit 10 x"

text \<open>The 64 round constants and the initial hash value, in decimal.\<close>

definition K256 :: "u32 list" where
  "K256 =
     [1116352408, 1899447441, 3049323471, 3921009573, 961987163, 1508970993,
      2453635748, 2870763221, 3624381080, 310598401, 607225278, 1426881987,
      1925078388, 2162078206, 2614888103, 3248222580, 3835390401, 4022224774,
      264347078, 604807628, 770255983, 1249150122, 1555081692, 1996064986,
      2554220882, 2821834349, 2952996808, 3210313671, 3336571891, 3584528711,
      113926993, 338241895, 666307205, 773529912, 1294757372, 1396182291,
      1695183700, 1986661051, 2177026350, 2456956037, 2730485921, 2820302411,
      3259730800, 3345764771, 3516065817, 3600352804, 4094571909, 275423344,
      430227734, 506948616, 659060556, 883997877, 958139571, 1322822218,
      1537002063, 1747873779, 1955562222, 2024104815, 2227730452, 2361852424,
      2428436474, 2756734187, 3204031479, 3329325298]"

definition H256_init :: "u32 list" where
  "H256_init =
     [1779033703, 3144134277, 1013904242, 2773480762, 1359893119, 2600822924,
      528734635, 1541459225]"

text \<open>A big-endian word from four bytes, and sixteen of them from a block.\<close>

definition be32 :: "u8 list \<Rightarrow> u32" where
  "be32 bs = foldl (\<lambda>acc b. push_bit 8 acc OR ucast b) 0 (take 4 bs)"

fun words_of_block :: "nat \<Rightarrow> u8 list \<Rightarrow> u32 list" where
  "words_of_block 0 bs = []"
| "words_of_block (Suc n) bs = be32 bs # words_of_block n (drop 4 bs)"

text \<open>The message schedule: each step appends the next word.\<close>

fun schedule :: "nat \<Rightarrow> u32 list \<Rightarrow> u32 list" where
  "schedule 0 w = w"
| "schedule (Suc n) w =
     (let t = length w in
      schedule n (w @ [sigma1 (w ! (t - 2)) + w ! (t - 7) + sigma0 (w ! (t - 15)) + w ! (t - 16)]))"

type_synonym hstate = "u32 \<times> u32 \<times> u32 \<times> u32 \<times> u32 \<times> u32 \<times> u32 \<times> u32"

definition round_step :: "hstate \<Rightarrow> u32 \<times> u32 \<Rightarrow> hstate" where
  "round_step s kw = (case s of (a, b, c, d, e, f, g, h) \<Rightarrow>
     (let t1 = h + Sigma1 e + Ch e f g + fst kw + snd kw;
          t2 = Sigma0 a + Maj a b c
      in (t1 + t2, a, b, c, d + t1, e, f, g)))"

definition compress :: "u32 list \<Rightarrow> u8 list \<Rightarrow> u32 list" where
  "compress hs block =
     (let w = schedule 48 (words_of_block 16 block);
          s0 = (hs ! 0, hs ! 1, hs ! 2, hs ! 3, hs ! 4, hs ! 5, hs ! 6, hs ! 7)
      in case foldl round_step s0 (zip K256 w) of (a, b, c, d, e, f, g, h) \<Rightarrow>
           [hs ! 0 + a, hs ! 1 + b, hs ! 2 + c, hs ! 3 + d, hs ! 4 + e, hs ! 5 + f, hs ! 6 + g, hs ! 7 + h])"

definition be_bytes32 :: "u32 \<Rightarrow> u8 list" where
  "be_bytes32 w = [ucast (drop_bit 24 w), ucast (drop_bit 16 w), ucast (drop_bit 8 w), ucast w]"

definition be_bytes64 :: "u64 \<Rightarrow> u8 list" where
  "be_bytes64 w = map (\<lambda>i. ucast (drop_bit (8 * (7 - i)) w)) [0..<8]"

definition sha_pad :: "u8 list \<Rightarrow> u8 list" where
  "sha_pad m = m @ [0x80] @ replicate ((119 - length m mod 64) mod 64) 0
                 @ be_bytes64 (of_nat (8 * length m))"

fun sha_blocks :: "nat \<Rightarrow> u32 list \<Rightarrow> u8 list \<Rightarrow> u32 list" where
  "sha_blocks 0 hs bs = hs"
| "sha_blocks (Suc n) hs bs = sha_blocks n (compress hs (take 64 bs)) (drop 64 bs)"

definition sha256 :: "u8 list \<Rightarrow> u8 list" where
  "sha256 m = (let p = sha_pad m in concat (map be_bytes32 (sha_blocks (length p div 64) H256_init p)))"

section \<open>ARM64Optimizer (\<^verbatim>\<open>arm64_optimizations.cpp\<close>)\<close>

text \<open>
  \<^verbatim>\<open>features_.hasNEON\<close>, and whether the translation unit was compiled with
  \<^verbatim>\<open>__ARM_NEON\<close> defined.
\<close>

record ARM64Optimizer =
  hasNEON :: bool
  arm_neon_build :: bool

text \<open>One iteration of the scalar loop: \<^verbatim>\<open>result[i % 32] ^= data[i]\<close>.\<close>

definition xor_at :: "u8 list \<Rightarrow> u8 list \<Rightarrow> nat \<Rightarrow> u8 list" where
  "xor_at data result i = result[i mod 32 := result ! (i mod 32) XOR data ! i]"

definition scalarHash :: "u8 list \<Rightarrow> u8 list" where
  "scalarHash data = foldl (xor_at data) (replicate 32 0) [0..<length data]"

text \<open>
  The NEON intrinsics on byte arrays: a 16-byte load from an offset, a lane-wise
  exclusive or, and a 16-byte store to an offset.
\<close>

definition vld1q_u8 :: "u8 list \<Rightarrow> nat \<Rightarrow> u8 list" where
  "vld1q_u8 mem off = take 16 (drop off mem)"

definition veorq_u8 :: "u8 list \<Rightarrow> u8 list \<Rightarrow> u8 list" where
  "veorq_u8 a b = map2 (XOR) a b"

definition vst1q_u8 :: "u8 list \<Rightarrow> nat \<Rightarrow> u8 list \<Rightarrow> u8 list" where
  "vst1q_u8 mem off v = take off mem @ v @ drop (off + 16) mem"

text \<open>The body of the chunk loop of \<^verbatim>\<open>vectorHash\<close>, for chunk \<open>i\<close>.\<close>

definition neon_chunk :: "u8 list \<Rightarrow> u8 list \<Rightarrow> nat \<Rightarrow> u8 list" where
  "neon_chunk data result i =
     (let dataVec = vld1q_u8 data (i * 16);
          resultVec = vld1q_u8 result ((i mod 2) * 16);
          resultVec = veorq_u8 resultVec dataVec
      in vst1q_u8 result ((i mod 2) * 16) resultVec)"

definition vectorHash_neon :: "u8 list \<Rightarrow> u8 list" where
  "vectorHash_neon data =
     (let chunks = length data div 16;
          result = foldl (neon_chunk data) (replicate 32 0) [0..<chunks]
      in foldl (xor_at data) result [chunks * 16..<length data])"

definition vectorHash :: "ARM64Optimizer \<Rightarrow> u8 list \<Rightarrow> u8 list" where
  "vectorHash a data =
     (if \<not> hasNEON a then scalarHash data
      else if arm_neon_build a then vectorHash_neon data
      else scalarHash data)"

definition bswap32 :: "u32 \<Rightarrow> u32" where
  "bswap32 v = push_bit 24 v OR push_bit 8 (v AND 0xFF00)
                 OR (drop_bit 8 v AND 0xFF00) OR drop_bit 24 v"

definition armSpecificHash_value :: "u32 \<Rightarrow> u32" where
  "armSpecificHash_value v0 =
     (let v1 = push_bit 13 v0 OR drop_bit 19 v0;
          v2 = v1 XOR drop_bit 7 v1;
          v3 = v2 XOR push_bit 17 v2
      in bswap32 v3)"

definition armSpecificHash :: "u32 list \<Rightarrow> u32 list" where
  "armSpecificHash state = map armSpecificHash_value state"

section \<open>MobileXMiner (\<^verbatim>\<open>mobile_randomx.cpp\<close>)\<close>

text \<open>
  The fields of the miner that the hash path reads or writes. \<^verbatim>\<open>arm64_\<close> is a
  pointer that may be null; \<^verbatim>\<open>npu_present\<close> says whether \<^verbatim>\<open>npu_\<close> is
  non-null; \<^verbatim>\<open>randomxVM\<close> is \<open>None\<close> for a null \<^verbatim>\<open>randomxVM_\<close> and
  otherwise holds the first 1024 bytes of the VM's cache, the only part
  \<^verbatim>\<open>randomx_calc_hash\<close> reads. \<open>npuCalls\<close> is a ghost field: the number of
  calls of \<^verbatim>\<open>npu_->processNeuralStep\<close> made so far.
\<close>

record MobileXMiner =
  hashesCompleted :: u64
  npuEnabled :: bool
  arm64 :: "ARM64Optimizer option"
  npu_present :: bool
  randomxVM :: "u8 list option"
  npuCalls :: nat

text \<open>\<^verbatim>\<open>npuInterval_\<close> is set to 150 by the constructor and never written again.\<close>

definition npuInterval :: u64 where
  "npuInterval = 150"

definition randomx_calc_hash :: "u8 list \<Rightarrow> u8 list \<Rightarrow> u8 list" where
  "randomx_calc_hash cache_prefix input = sha256 (input @ take 1024 cache_prefix)"

definition serializeBlockHeader :: "u8 list \<Rightarrow> u8 list" where
  "serializeBlockHeader header = header"

text \<open>
  \<^verbatim>\<open>bytesToUint32s\<close> is declared to return \<^verbatim>\<open>std::vector<uint8_t>\<close> and
  copies its argument byte for byte.
\<close>

definition bytesToUint32s :: "u8 list \<Rightarrow> u8 list" where
  "bytesToUint32s bytes = bytes"

definition uint32sToBytes :: "u32 list \<Rightarrow> u8 list" where
  "uint32sToBytes data = concat (map le_bytes32 data)"

text \<open>
  \<^verbatim>\<open>applyMobileMixing\<close> hands the byte vector returned by
  \<^verbatim>\<open>bytesToUint32s\<close> to \<^verbatim>\<open>armSpecificHash\<close>, which takes a
  \<^verbatim>\<open>std::vector<uint32_t>\<close>. C++ has no such implicit conversion; the model takes
  the only value-preserving reading, element by element (one 32-bit value per byte), as
  the vector's range constructor would do.
\<close>

definition as_uint32_vector :: "u8 list \<Rightarrow> u32 list" where
  "as_uint32_vector bytes = map ucast bytes"

text \<open>The loop that mixes \<^verbatim>\<open>coreState\<close> into every value and rotates it by one.\<close>

fun mix_coreState :: "u32 \<Rightarrow> u32 list \<Rightarrow> u32 list" where
  "mix_coreState coreState [] = []"
| "mix_coreState coreState (v # vs) =
     (v XOR coreState) # mix_coreState (push_bit 1 coreState OR drop_bit 31 coreState) vs"

text \<open>The bytes that \<^verbatim>\<open>applyMobileMixing\<close> passes to the final SHA-256.\<close>

definition applyMobileMixing_finalBytes :: "ARM64Optimizer option \<Rightarrow> u8 list \<Rightarrow> u8 list" where
  "applyMobileMixing_finalBytes a randomxHash =
     (let uint32Data = as_uint32_vector (bytesToUint32s randomxHash);
          mixed = (case a of Some _ \<Rightarrow> armSpecificHash uint32Data | None \<Rightarrow> uint32Data)
      in uint32sToBytes (mix_coreState 0x12345678 mixed))"

definition applyMobileMixing :: "ARM64Optimizer option \<Rightarrow> u8 list \<Rightarrow> u8 list" where
  "applyMobileMixing a randomxHash = sha256 (applyMobileMixing_finalBytes a randomxHash)"

definition shouldRunNPU :: "MobileXMiner \<Rightarrow> bool" where
  "shouldRunNPU m =
     (if \<not> npuEnabled m \<or> \<not> npu_present m then False
      else hashesCompleted m mod npuInterval = 0)"

text \<open>
  The fill loop of \<^verbatim>\<open>runNPUStep\<close>:
  \<^verbatim>\<open>for (i = 8; i < vmState.size() && i - 8 < stateHash.size(); ++i)\<close>.
\<close>

function fill_vmState :: "nat \<Rightarrow> u8 list \<Rightarrow> u8 list \<Rightarrow> u8 list" where
  "fill_vmState i stateHash vmState =
     (if i < length vmState \<and> i - 8 < length stateHash
      then fill_vmState (i + 1) stateHash
             (vmState[i := stateHash ! ((i - 8) mod length stateHash)])
      else vmState)"
  by pat_completeness auto
termination
  by (relation "measure (\<lambda>(i, stateHash, vmState). length vmState - i)") auto

declare fill_vmState.simps [simp del]

text \<open>The state that \<^verbatim>\<open>runNPUStep\<close> builds from the hash counter.\<close>

definition runNPUStep_vmState :: "u64 \<Rightarrow> u8 list" where
  "runNPUStep_vmState hashCount =
     (let vmState = le_bytes64 hashCount @ replicate 2040 0;
          stateHash = sha256 (take 8 vmState)
      in fill_vmState 8 stateHash vmState)"

text \<open>
  \<^verbatim>\<open>processNeuralStep\<close> runs on the NPU or its CPU fallback; what it answers is an
  input of the model: \<open>None\<close> when it returns false, the result vector otherwise.
\<close>

type_synonym npu_device = "u8 list \<Rightarrow> u8 list option"

definition runNPUStep :: "npu_device \<Rightarrow> MobileXMiner \<Rightarrow> MobileXMiner" where
  "runNPUStep npu m =
     (if \<not> npu_present m then m
      else
        let vmState = runNPUStep_vmState (hashesCompleted m);
            m1 = m\<lparr>npuCalls := npuCalls m + 1\<rparr>
        in case npu vmState of
             None \<Rightarrow> m1
           | Some npuResult \<Rightarrow>
               if length npuResult \<ge> 4
               then m1\<lparr>hashesCompleted :=
                          hashesCompleted m1 + ucast (le_word32 npuResult mod 1000)\<rparr>
               else m1)"

definition computeMobileXHash ::
    "npu_device \<Rightarrow> u8 list \<Rightarrow> MobileXMiner \<Rightarrow> u8 list \<times> MobileXMiner" where
  "computeMobileXHash npu headerBytes m =
     (case randomxVM m of
        None \<Rightarrow> (replicate 32 0, m)
      | Some cache_prefix \<Rightarrow>
          let serialized = serializeBlockHeader headerBytes;
              preprocessed =
                (case arm64 m of
                   Some a \<Rightarrow> if hasNEON a then vectorHash a serialized else serialized
                 | None \<Rightarrow> serialized);
              vmOutput = randomx_calc_hash cache_prefix preprocessed;
              mixed = applyMobileMixing (arm64 m) vmOutput;
              m1 = m\<lparr>hashesCompleted := hashesCompleted m + 1\<rparr>
          in (mixed, if shouldRunNPU m1 then runNPUStep npu m1 else m1))"

text \<open>
  The miner after a successful \<^verbatim>\<open>initialize\<close>: counter at zero, NPU enabled and
  present, the optimizer present with NEON, the VM created over a cache whose first 1024
  bytes are zero here.
\<close>

definition MobileXMiner_initialized :: MobileXMiner where
  "MobileXMiner_initialized =
     \<lparr>hashesCompleted = 0, npuEnabled = True,
      arm64 = Some \<lparr>hasNEON = True, arm_neon_build = True\<rparr>,
      npu_present = True, randomxVM = Some (replicate 1024 0), npuCalls = 0\<rparr>"

text \<open>
  The mixing function of section 4.6, step 3, written from the words of the
  specification, to be compared with \<^const>\<open>applyMobileMixing\<close>.
\<close>

fun split_u32_le :: "nat \<Rightarrow> u8 list \<Rightarrow> u32 list" where
  "split_u32_le 0 bs = []"
| "split_u32_le (Suc n) bs = le_word32 (take 4 bs) # split_u32_le n (drop 4 bs)"

definition rotl32 :: "nat \<Rightarrow> u32 \<Rightarrow> u32" where
  "rotl32 n w = push_bit n w OR drop_bit (32 - n) w"

definition byte_reverse32 :: "u32 \<Rightarrow> u32" where
  "byte_reverse32 w = le_word32 (rev (le_bytes32 w))"

definition mobileMix_spec_word :: "u32 \<Rightarrow> u32" where
  "mobileMix_spec_word w0 =
     (let w1 = rotl32 13 w0; w2 = w1 XOR drop_bit 7 w1; w3 = w2 XOR push_bit 17 w2
      in byte_reverse32 w3)"

fun mobileMix_spec_core :: "u32 \<Rightarrow> u32 list \<Rightarrow> u32 list" where
  "mobileMix_spec_core c [] = []"
| "mobileMix_spec_core c (w # ws) = (w XOR c) # mobileMix_spec_core (rotl32 1 c) ws"

definition mobileMix_spec_bytes :: "u8 list \<Rightarrow> u8 list" where
  "mobileMix_spec_bytes V =
     concat (map le_bytes32
       (mobileMix_spec_core 0x12345678 (map mobileMix_spec_word (split_u32_le 8 V))))"

definition mobileMix_spec :: "u8 list \<Rightarrow> u8 list" where
  "mobileMix_spec V = sha256 (mobileMix_spec_bytes V)"

text \<open>
  The derived NPU state of section 4.6, step 4, written from the words of the
  specification: the counter in eight little-endian bytes, then the SHA-256 of those
  bytes repeated over the remaining 2040.
\<close>

definition npu_state_spec :: "u64 \<Rightarrow> u8 list" where
  "npu_state_spec c =
     le_bytes64 c @ map (\<lambda>i. sha256 (le_bytes64 c) ! (i mod 32)) [0..<2040]"

section \<open>AndroidPowerManager (\<^verbatim>\<open>android_power_manager.cpp\<close>)\<close>

text \<open>
  The private fields of the class. \<^verbatim>\<open>batteryLevel_\<close> is a C++ \<^verbatim>\<open>int\<close>;
  \<^verbatim>\<open>currentTemp_\<close> is a \<^verbatim>\<open>float\<close> that is only ever compared with the
  constants 40, 45 and 50 (all exactly representable), so it is modelled by the real
  number it denotes. The three readers never produce a NaN: they return an integer
  divided by 10 or 1000, or the constant 35.
\<close>

record AndroidPowerManager =
  batteryLevel :: int
  isCharging :: bool
  currentTemp :: real
  canMine :: bool

text \<open>The constructor's initial values.\<close>

definition AndroidPowerManager_new :: AndroidPowerManager where
  "AndroidPowerManager_new =
     \<lparr>batteryLevel = 100, isCharging = False, currentTemp = 30, canMine = False\<rparr>"

text \<open>
  What \<^verbatim>\<open>readBatteryLevel\<close>, \<^verbatim>\<open>readChargingState\<close> and
  \<^verbatim>\<open>readTemperature\<close> return in one call of \<^verbatim>\<open>updatePowerState\<close>: the
  readings come from the operating system and are an input of the model.
\<close>

record PowerSnapshot =
  batteryPct :: int
  charging :: bool
  tempC :: real

definition updateMiningPermission :: "AndroidPowerManager \<Rightarrow> AndroidPowerManager" where
  "updateMiningPermission pm =
     pm\<lparr>canMine := (isCharging pm \<and> batteryLevel pm \<ge> 80 \<and> currentTemp pm < 50)\<rparr>"

definition updatePowerState :: "PowerSnapshot \<Rightarrow> AndroidPowerManager \<Rightarrow> AndroidPowerManager" where
  "updatePowerState snap pm =
     updateMiningPermission
       (pm\<lparr>batteryLevel := batteryPct snap, isCharging := charging snap,
           currentTemp := tempC snap\<rparr>)"

definition canStartMining :: "AndroidPowerManager \<Rightarrow> bool" where
  "canStartMining pm = canMine pm"

definition shouldStopMining :: "AndroidPowerManager \<Rightarrow> bool" where
  "shouldStopMining pm = (\<not> canMine pm \<or> batteryLevel pm < 20 \<or> currentTemp pm > 50)"

definition determineOptimalIntensity :: "AndroidPowerManager \<Rightarrow> MiningIntensity" where
  "determineOptimalIntensity pm =
     (if \<not> canMine pm then DISABLED
      else if \<not> isCharging pm then DISABLED
      else if batteryLevel pm < 80 then DISABLED
      else if currentTemp pm > 45 then LIGHT
      else if batteryLevel pm > 95 \<and> currentTemp pm < 40 then FULL
      else if batteryLevel pm > 85 then MEDIUM
      else LIGHT)"

definition setMiningAllowed :: "bool \<Rightarrow> AndroidPowerManager \<Rightarrow> AndroidPowerManager" where
  "setMiningAllowed allowed pm = pm\<lparr>canMine := allowed\<rparr>"

text \<open>
  The decision table of section 4.3 of the specification, written from its words, to be
  compared with \<^const>\<open>determineOptimalIntensity\<close>.
\<close>

definition policy_table_4_3 :: "int \<Rightarrow> bool \<Rightarrow> real \<Rightarrow> MiningIntensity" where
  "policy_table_4_3 b c t =
     (if \<not> c then DISABLED
      else if b < 80 then DISABLED
      else if t > 45 then LIGHT
      else if b > 95 \<and> t < 40 then FULL
      else if b > 85 then MEDIUM
      else LIGHT)"

section \<open>Floating-point values\<close>

text \<open>
  A finite \<^verbatim>\<open>float\<close> or \<^verbatim>\<open>double\<close> is the rational number it denotes. Every
  arithmetic operation of the source is the exact operation followed by IEEE 754
  rounding to nearest, ties to even, at 24 or 53 significant bits
  (\<open>fl_round\<close>). The exponent range is not bounded in the model, so overflow to
  infinity and subnormal numbers are left out; zero is the positive zero.
\<close>














section \<open>ThermalVerification (\<^verbatim>\<open>thermal_verification.cpp\<close>)\<close>
























section \<open>The JNI bridge (\<^verbatim>\<open>shell_mining_jni.cpp\<close>)\<close>

text \<open>
  \<^verbatim>\<open>AndroidMobileXMiner\<close>: its own three fields, and what its components answer at
  the moment of a call (the hash rate of \<^verbatim>\<open>miner_\<close>, the temperature and the next
  proof of \<^verbatim>\<open>thermal_\<close>, the utilization of \<^verbatim>\<open>npu_\<close>). The intensity arrives
  as a \<^verbatim>\<open>jint\<close> and is cast to the enumeration unchecked, so it stays an integer.
  Log output is not modelled.
\<close>

record AndroidMobileXMiner =
  is_mining :: bool
  npu_available :: bool
  current_intensity :: int
  miner_hashRate :: real
  thermal_temperature :: real
  npu_utilization :: real
  thermal_nextProof :: u64

text \<open>
  \<^verbatim>\<open>AndroidMobileXMiner::startMining\<close>: \<^verbatim>\<open>MobileXMiner::startMining\<close> accepts
  LIGHT (1), MEDIUM (2) and FULL (3) and returns false for every other value.
\<close>

definition engine_startMining :: "int \<Rightarrow> AndroidMobileXMiner \<Rightarrow> bool \<times> AndroidMobileXMiner" where
  "engine_startMining intensity e =
     (if is_mining e then (True, e)
      else
        let started = (intensity = 1 \<or> intensity = 2 \<or> intensity = 3)
        in (started, e\<lparr>current_intensity := intensity, is_mining := started\<rparr>))"

definition engine_stopMining :: "AndroidMobileXMiner \<Rightarrow> bool \<times> AndroidMobileXMiner" where
  "engine_stopMining e = (if \<not> is_mining e then (True, e) else (True, e\<lparr>is_mining := False\<rparr>))"

definition engine_getNPUUtilization :: "AndroidMobileXMiner \<Rightarrow> real" where
  "engine_getNPUUtilization e = (if \<not> npu_available e then 0 else npu_utilization e)"

text \<open>
  The native heap: the miner objects alive, by address. A handle is the address of an
  object cast to \<^verbatim>\<open>jlong\<close>; an operation on a non-zero handle that is not the address
  of a live object has undefined behaviour, which is \<open>None\<close> here.
\<close>

type_synonym jni_heap = "u64 \<rightharpoonup> AndroidMobileXMiner"

text \<open>
  How \<^verbatim>\<open>new AndroidMobileXMiner()\<close> followed by \<^verbatim>\<open>initialize()\<close> ends: with an
  initialized object, with \<^verbatim>\<open>initialize\<close> returning false, or with an exception.
\<close>

datatype init_outcome = InitSucceeded AndroidMobileXMiner | InitFailed | InitThrew

text \<open>\<open>addr\<close> is the address that \<^verbatim>\<open>new\<close> returned.\<close>

definition createMiner :: "u64 \<Rightarrow> init_outcome \<Rightarrow> jni_heap \<Rightarrow> u64 \<times> jni_heap" where
  "createMiner addr outcome heap =
     (case outcome of
        InitSucceeded e \<Rightarrow> (addr, heap(addr \<mapsto> e))
      | InitFailed \<Rightarrow> (0, heap)
      | InitThrew \<Rightarrow> (0, heap))"

definition destroyMiner :: "u64 \<Rightarrow> jni_heap \<Rightarrow> jni_heap option" where
  "destroyMiner minerPtr heap =
     (if minerPtr \<noteq> 0
      then (case heap minerPtr of None \<Rightarrow> None | Some e \<Rightarrow> Some (heap(minerPtr := None)))
      else Some heap)"

definition startMining :: "u64 \<Rightarrow> int \<Rightarrow> jni_heap \<Rightarrow> (bool \<times> jni_heap) option" where
  "startMining minerPtr intensity heap =
     (if minerPtr = 0 then Some (False, heap)
      else case heap minerPtr of
             None \<Rightarrow> None
           | Some e \<Rightarrow>
               Some (fst (engine_startMining intensity e),
                     heap(minerPtr \<mapsto> snd (engine_startMining intensity e))))"

definition stopMining :: "u64 \<Rightarrow> jni_heap \<Rightarrow> (bool \<times> jni_heap) option" where
  "stopMining minerPtr heap =
     (if minerPtr = 0 then Some (False, heap)
      else case heap minerPtr of
             None \<Rightarrow> None
           | Some e \<Rightarrow>
               Some (fst (engine_stopMining e), heap(minerPtr \<mapsto> snd (engine_stopMining e))))"

definition getHashRate :: "u64 \<Rightarrow> jni_heap \<Rightarrow> (real \<times> jni_heap) option" where
  "getHashRate minerPtr heap =
     (if minerPtr = 0 then Some (0, heap)
      else case heap minerPtr of None \<Rightarrow> None | Some e \<Rightarrow> Some (miner_hashRate e, heap))"

definition getRandomXHashRate :: "u64 \<Rightarrow> jni_heap \<Rightarrow> (real \<times> jni_heap) option" where
  "getRandomXHashRate minerPtr heap =
     (if minerPtr = 0 then Some (0, heap)
      else case heap minerPtr of
             None \<Rightarrow> None | Some e \<Rightarrow> Some (miner_hashRate e * 0.7, heap))"

definition getMobileXHashRate :: "u64 \<Rightarrow> jni_heap \<Rightarrow> (real \<times> jni_heap) option" where
  "getMobileXHashRate minerPtr heap =
     (if minerPtr = 0 then Some (0, heap)
      else case heap minerPtr of
             None \<Rightarrow> None | Some e \<Rightarrow> Some (miner_hashRate e * 0.3, heap))"

definition getCurrentTemperature :: "u64 \<Rightarrow> jni_heap \<Rightarrow> (real \<times> jni_heap) option" where
  "getCurrentTemperature minerPtr heap =
     (if minerPtr = 0 then Some (30, heap)
      else case heap minerPtr of
             None \<Rightarrow> None | Some e \<Rightarrow> Some (thermal_temperature e, heap))"

definition getNPUUtilization :: "u64 \<Rightarrow> jni_heap \<Rightarrow> (real \<times> jni_heap) option" where
  "getNPUUtilization minerPtr heap =
     (if minerPtr = 0 then Some (0, heap)
      else case heap minerPtr of
             None \<Rightarrow> None | Some e \<Rightarrow> Some (engine_getNPUUtilization e, heap))"

definition isMining :: "u64 \<Rightarrow> jni_heap \<Rightarrow> (bool \<times> jni_heap) option" where
  "isMining minerPtr heap =
     (if minerPtr = 0 then Some (False, heap)
      else case heap minerPtr of None \<Rightarrow> None | Some e \<Rightarrow> Some (is_mining e, heap))"

definition jni_generateThermalProof :: "u64 \<Rightarrow> jni_heap \<Rightarrow> (u64 \<times> jni_heap) option" where
  "jni_generateThermalProof minerPtr heap =
     (if minerPtr = 0 then Some (0, heap)
      else case heap minerPtr of
             None \<Rightarrow> None | Some e \<Rightarrow> Some (thermal_nextProof e, heap))"

definition configureNPU :: "u64 \<Rightarrow> jni_heap \<Rightarrow> jni_heap option" where
  "configureNPU minerPtr heap = (if minerPtr = 0 then Some heap else Some heap)"

section \<open>The vector hash and its scalar fallback\<close>

lemma length_xor_at [simp]: "length (xor_at data r i) = length r"
  by (simp add: xor_at_def)

lemma length_foldl_xor_at [simp]: "length (foldl (xor_at data) r js) = length r"
  by (induction js arbitrary: r) simp_all

lemma lane_offset: "(i mod 2) * 16 = 0 \<or> (i mod 2) * 16 = 16"
  for i :: nat
proof -
  have "i mod 2 = 0 \<or> i mod 2 = 1" by auto
  then show ?thesis by auto
qed

lemma lane_index: "n < 16 \<Longrightarrow> (i * 16 + n) mod 32 = (i mod 2) * 16 + n"
  for i n :: nat
proof -
  assume n: "n < 16"
  have "i * 16 + n = (2 * (i div 2) + i mod 2) * 16 + n" by simp
  also have "\<dots> = 32 * (i div 2) + ((i mod 2) * 16 + n)"
    by (simp only: distrib_right mult.assoc add.assoc)
  finally have "i * 16 + n = 32 * (i div 2) + ((i mod 2) * 16 + n)" .
  moreover have "(i mod 2) * 16 + n < 32"
    using n lane_offset [of i] by auto
  ultimately show ?thesis
    by (metis mod_mult_self4 mod_less)
qed

lemma xor_at_nth:
  assumes "length r = 32" and "k < 32"
  shows "xor_at data r j ! k = (if k = j mod 32 then r ! k XOR data ! j else r ! k)"
  using assms by (simp add: xor_at_def nth_list_update)

lemma xor_at_range_nth:
  assumes "length r = 32" and "n \<le> 16" and "k < 32"
  shows "foldl (xor_at data) r [i * 16..<i * 16 + n] ! k =
         (if (i mod 2) * 16 \<le> k \<and> k < (i mod 2) * 16 + n
          then r ! k XOR data ! (i * 16 + (k - (i mod 2) * 16)) else r ! k)"
  using assms(2)
proof (induction n)
  case 0
  then show ?case by auto
next
  case (Suc n)
  then have n: "n < 16" by simp
  have pos: "(i * 16 + n) mod 32 = (i mod 2) * 16 + n"
    using n by (rule lane_index)
  let ?r = "foldl (xor_at data) r [i * 16..<i * 16 + n]"
  have len: "length ?r = 32" using assms(1) by simp
  have step: "foldl (xor_at data) r [i * 16..<i * 16 + Suc n] = xor_at data ?r (i * 16 + n)"
    by simp
  have IH: "?r ! k = (if (i mod 2) * 16 \<le> k \<and> k < (i mod 2) * 16 + n
          then r ! k XOR data ! (i * 16 + (k - (i mod 2) * 16)) else r ! k)"
    using Suc.IH n by simp
  have nth: "xor_at data ?r (i * 16 + n) ! k =
               (if k = (i mod 2) * 16 + n then ?r ! k XOR data ! (i * 16 + n) else ?r ! k)"
    using xor_at_nth [OF len assms(3)] pos by simp
  show ?case
  proof (cases "k = (i mod 2) * 16 + n")
    case True
    then show ?thesis
      unfolding step nth IH by simp
  next
    case False
    then show ?thesis
      unfolding step nth IH by auto
  qed
qed

lemma neon_chunk_unfold:
  assumes "length r = 32" and "i * 16 + 16 \<le> length data" and "off = (i mod 2) * 16"
  shows "neon_chunk data r i =
           take off r @ map2 (XOR) (take 16 (drop off r)) (take 16 (drop (i * 16) data))
             @ drop (off + 16) r"
  using assms by (simp add: neon_chunk_def vld1q_u8_def veorq_u8_def vst1q_u8_def)

lemma neon_chunk_nth:
  assumes "length r = 32" and "i * 16 + 16 \<le> length data" and "k < 32"
  shows "neon_chunk data r i ! k =
         (if (i mod 2) * 16 \<le> k \<and> k < (i mod 2) * 16 + 16
          then r ! k XOR data ! (i * 16 + (k - (i mod 2) * 16)) else r ! k)"
proof -
  from lane_offset [of i] show ?thesis
  proof
    assume even: "(i mod 2) * 16 = 0"
    show ?thesis
      unfolding neon_chunk_unfold [OF assms(1,2) refl] even
      using assms by (simp add: nth_append)
  next
    assume odd: "(i mod 2) * 16 = 16"
    show ?thesis
      unfolding neon_chunk_unfold [OF assms(1,2) refl] odd
      using assms by (simp add: nth_append)
  qed
qed

lemma length_neon_chunk:
  assumes "length r = 32" and "i * 16 + 16 \<le> length data"
  shows "length (neon_chunk data r i) = 32"
proof -
  from lane_offset [of i] show ?thesis
  proof
    assume even: "(i mod 2) * 16 = 0"
    show ?thesis
      unfolding neon_chunk_unfold [OF assms(1,2) refl] even
      using assms by simp
  next
    assume odd: "(i mod 2) * 16 = 16"
    show ?thesis
      unfolding neon_chunk_unfold [OF assms(1,2) refl] odd
      using assms by simp
  qed
qed

lemma neon_chunk_eq_scalar:
  assumes "length r = 32" and "i * 16 + 16 \<le> length data"
  shows "neon_chunk data r i = foldl (xor_at data) r [i * 16..<i * 16 + 16]"
proof (rule nth_equalityI)
  show "length (neon_chunk data r i) = length (foldl (xor_at data) r [i * 16..<i * 16 + 16])"
    using assms by (simp add: length_neon_chunk)
next
  fix k assume "k < length (neon_chunk data r i)"
  then have k: "k < 32" using assms by (simp add: length_neon_chunk)
  have "(16::nat) \<le> 16" by simp
  from neon_chunk_nth [OF assms k] xor_at_range_nth [OF assms(1) this k]
  show "neon_chunk data r i ! k = foldl (xor_at data) r [i * 16..<i * 16 + 16] ! k"
    by simp
qed

lemma neon_chunks_eq_scalar:
  assumes "c * 16 \<le> length data"
  shows "foldl (neon_chunk data) (replicate 32 0) [0..<c]
         = foldl (xor_at data) (replicate 32 0) [0..<c * 16]"
  using assms
proof (induction c)
  case 0
  then show ?case by simp
next
  case (Suc c)
  let ?r = "foldl (xor_at data) (replicate 32 0) [0..<c * 16]"
  have IH: "foldl (neon_chunk data) (replicate 32 0) [0..<c] = ?r"
    using Suc by simp
  have len: "length ?r = 32" by simp
  have bound: "c * 16 + 16 \<le> length data" using Suc.prems by simp
  have split: "[0..<Suc c * 16] = [0..<c * 16] @ [c * 16..<c * 16 + 16]"
    using upt_add_eq_append [of 0 "c * 16" 16] by (simp add: add.commute)
  have "foldl (neon_chunk data) (replicate 32 0) [0..<Suc c] = neon_chunk data ?r c"
    using IH by simp
  also have "\<dots> = foldl (xor_at data) ?r [c * 16..<c * 16 + 16]"
    by (rule neon_chunk_eq_scalar [OF len bound])
  also have "\<dots> = foldl (xor_at data) (replicate 32 0) [0..<Suc c * 16]"
    unfolding split foldl_append ..
  finally show ?case .
qed

lemma vectorHash_neon_eq_scalarHash: "vectorHash_neon data = scalarHash data"
proof -
  let ?c = "length data div 16"
  have le: "?c * 16 \<le> length data" by simp
  have split: "[0..<length data] = [0..<?c * 16] @ [?c * 16..<length data]"
    using upt_add_eq_append [of 0 "?c * 16" "length data - ?c * 16"] le by simp
  have "vectorHash_neon data
          = foldl (xor_at data) (foldl (xor_at data) (replicate 32 0) [0..<?c * 16])
              [?c * 16..<length data]"
    unfolding vectorHash_neon_def Let_def neon_chunks_eq_scalar [OF le] ..
  also have "\<dots> = foldl (xor_at data) (replicate 32 0) ([0..<?c * 16] @ [?c * 16..<length data])"
    unfolding foldl_append ..
  also have "\<dots> = scalarHash data"
    by (simp only: scalarHash_def split [symmetric])
  finally show ?thesis .
qed


text \<open>
  C8: for every input byte sequence and in every configuration (NEON present and compiled
  in, or not), \<^verbatim>\<open>vectorHash\<close> returns byte for byte what the scalar fallback
  \<^verbatim>\<open>scalarHash\<close> returns; in particular the NEON path, which folds 16-byte chunk
  \<open>i\<close> into bytes \<open>(i mod 2) * 16\<close> onwards and the trailing bytes at their index
  modulo 32, equals the scalar fold of every byte at its index modulo 32.
\<close>

theorem vectorHash_eq_scalarHash:
  "vectorHash a data = scalarHash data
   \<and> vectorHash \<lparr>hasNEON = True, arm_neon_build = True\<rparr> data = vectorHash_neon data"
  by (simp add: vectorHash_def vectorHash_neon_eq_scalarHash)

theorem vectorHash_eq_scalarHash_witness:
  "vectorHash \<lparr>hasNEON = True, arm_neon_build = True\<rparr>
     [1, 2, 3, 4, 5, 6, 7, 8, 9, 10, 11, 12, 13, 14, 15, 16, 17]
   = scalarHash [1, 2, 3, 4, 5, 6, 7, 8, 9, 10, 11, 12, 13, 14, 15, 16, 17]
   \<and> vectorHash_neon [1, 2, 3, 4, 5, 6, 7, 8, 9, 10, 11, 12, 13, 14, 15, 16, 17]
     = [1, 2, 3, 4, 5, 6, 7, 8, 9, 10, 11, 12, 13, 14, 15, 16, 17,
        0, 0, 0, 0, 0, 0, 0, 0, 0, 0, 0, 0, 0, 0, 0]"
proof -
  have "vectorHash_neon [1, 2, 3, 4, 5, 6, 7, 8, 9, 10, 11, 12, 13, 14, 15, 16, 17]
     = [1, 2, 3, 4, 5, 6, 7, 8, 9, 10, 11, 12, 13, 14, 15, 16, 17,
        0, 0, 0, 0, 0, 0, 0, 0, 0, 0, 0, 0, 0, 0, 0 :: u8]"
    by code_simp
  then show ?thesis
    using vectorHash_eq_scalarHash
      [of "\<lparr>hasNEON = True, arm_neon_build = True\<rparr>"
          "[1, 2, 3, 4, 5, 6, 7, 8, 9, 10, 11, 12, 13, 14, 15, 16, 17]"]
    by simp
qed

section \<open>The NPU schedule\<close>

lemma npuCalls_runNPUStep:
  "npuCalls (runNPUStep npu m) = (if npu_present m then npuCalls m + 1 else npuCalls m)"
  by (simp add: runNPUStep_def Let_def split: option.split)

text \<open>
  C1, as stated, fails at the first hash: the counter is 0, a multiple of 150, on entry to
  \<^verbatim>\<open>computeMobileXHash\<close>, yet no NPU step runs, because the counter is incremented
  before \<^verbatim>\<open>shouldRunNPU\<close> reads it.
\<close>

theorem npu_step_first_hash_counterexample:
  "hashesCompleted MobileXMiner_initialized mod 150 = 0
   \<and> npuCalls (snd (computeMobileXHash (\<lambda>vmState. None) (replicate 32 0) MobileXMiner_initialized))
       = npuCalls MobileXMiner_initialized"
  by (simp add: computeMobileXHash_def MobileXMiner_initialized_def shouldRunNPU_def
      npuInterval_def Let_def)

text \<open>
  C1, amended: for every counter value \<open>c\<close> on entry, \<^verbatim>\<open>computeMobileXHash\<close>
  runs exactly one NPU step if the VM exists, the NPU is enabled and present and
  \<open>(c + 1) mod 150 = 0\<close> (the counter as incremented by this hash, before the step
  adds its skip), and none otherwise; with the counter at 0 no NPU step runs.
\<close>

theorem npu_step_schedule:
  "npuCalls (snd (computeMobileXHash npu headerBytes m)) =
     (if randomxVM m \<noteq> None \<and> npuEnabled m \<and> npu_present m
         \<and> (hashesCompleted m + 1) mod 150 = 0
      then npuCalls m + 1 else npuCalls m)"
  by (simp add: computeMobileXHash_def shouldRunNPU_def npuInterval_def Let_def
      npuCalls_runNPUStep split: option.split)

theorem npu_step_schedule_witness:
  "npuCalls (snd (computeMobileXHash (\<lambda>vmState. None) (replicate 32 0)
       (MobileXMiner_initialized\<lparr>hashesCompleted := 149\<rparr>))) = 1
   \<and> npuCalls (snd (computeMobileXHash (\<lambda>vmState. None) (replicate 32 0)
       (MobileXMiner_initialized\<lparr>hashesCompleted := 150\<rparr>))) = 0"
  using npu_step_schedule [of "\<lambda>vmState. None" "replicate 32 0"
      "MobileXMiner_initialized\<lparr>hashesCompleted := 149\<rparr>"]
    npu_step_schedule [of "\<lambda>vmState. None" "replicate 32 0"
      "MobileXMiner_initialized\<lparr>hashesCompleted := 150\<rparr>"]
  by (simp add: MobileXMiner_initialized_def)

section \<open>SHA-256: length and test values\<close>

lemma length_compress: "length (compress hs block) = 8"
  by (simp add: compress_def Let_def split: prod.split)

lemma length_sha_blocks: "length hs = 8 \<Longrightarrow> length (sha_blocks n hs bs) = 8"
  by (induction n arbitrary: hs bs) (simp_all add: length_compress)

lemma length_concat_be_bytes32: "length (concat (map be_bytes32 ws)) = 4 * length ws"
  by (induction ws) (simp_all add: be_bytes32_def)

lemma length_sha256: "length (sha256 m) = 32"
  by (simp add: sha256_def Let_def length_concat_be_bytes32 length_sha_blocks H256_init_def)

lemma length_le_bytes64: "length (le_bytes64 w) = 8"
  by (simp add: le_bytes64_def)

text \<open>The test vector of FIPS 180-4 for the message \<^verbatim>\<open>abc\<close>.\<close>

lemma sha256_abc:
  "sha256 [97, 98, 99] =
     [186, 120, 22, 191, 143, 1, 207, 234, 65, 65, 64, 222, 93, 174, 34, 35, 176, 3, 97,
      163, 150, 23, 122, 156, 180, 16, 255, 97, 242, 0, 21, 173]"
  by code_simp

section \<open>The state derived for the NPU\<close>

lemma fill_vmState_eq:
  "length stateHash = 32 \<Longrightarrow> 40 \<le> length vmState \<Longrightarrow> 8 \<le> i \<Longrightarrow> i \<le> 40 \<Longrightarrow>
     fill_vmState i stateHash vmState
       = take i vmState @ drop (i - 8) stateHash @ drop 40 vmState"
proof (induction i stateHash vmState rule: fill_vmState.induct)
  case (1 i stateHash vmState)
  show ?case
  proof (cases "i < 40")
    case True
    let ?v = "vmState[i := stateHash ! ((i - 8) mod length stateHash)]"
    have cond: "i < length vmState \<and> i - 8 < length stateHash"
      using True 1 by simp
    have IH: "fill_vmState (i + 1) stateHash ?v
                = take (i + 1) ?v @ drop (i + 1 - 8) stateHash @ drop 40 ?v"
      using "1.IH" [OF cond] "1.prems" True by simp
    have idx: "(i - 8) mod length stateHash = i - 8"
      using cond by simp
    have t: "take (i + 1) ?v = take i vmState @ [stateHash ! (i - 8)]"
      using cond by (simp add: idx take_Suc_conv_app_nth)
    have d: "drop 40 ?v = drop 40 vmState"
      using True by simp
    have "Suc (i - 8) = i + 1 - 8" using "1.prems" by simp
    then have s: "drop (i - 8) stateHash = stateHash ! (i - 8) # drop (i + 1 - 8) stateHash"
      using cond Cons_nth_drop_Suc [of "i - 8" stateHash] by simp
    have "fill_vmState i stateHash vmState = fill_vmState (i + 1) stateHash ?v"
      using cond by (subst fill_vmState.simps) simp
    also have "\<dots> = take i vmState @ drop (i - 8) stateHash @ drop 40 vmState"
      unfolding IH t d s by simp
    finally show ?thesis .
  next
    case False
    then have i: "i = 40" using 1 by simp
    show ?thesis
      by (subst fill_vmState.simps) (simp add: i "1.prems")
  qed
qed

text \<open>
  What \<^verbatim>\<open>runNPUStep\<close> builds: the counter, one copy of its hash, and zeros. The
  second conjunct of the loop condition, \<^verbatim>\<open>i - 8 < stateHash.size()\<close>, ends the loop
  after 32 bytes.
\<close>

lemma runNPUStep_vmState_eq:
  "runNPUStep_vmState c = le_bytes64 c @ sha256 (le_bytes64 c) @ replicate 2008 0"
proof -
  let ?v = "le_bytes64 c @ replicate 2040 0"
  have "fill_vmState 8 (sha256 (take 8 ?v)) ?v
          = take 8 ?v @ drop (8 - 8) (sha256 (take 8 ?v)) @ drop 40 ?v"
    by (rule fill_vmState_eq) (simp_all add: length_sha256 length_le_bytes64)
  then show ?thesis
    by (simp add: runNPUStep_vmState_def Let_def length_le_bytes64)
qed

lemma sha256_counter_150:
  "sha256 (le_bytes64 150) =
     [85, 69, 65, 46, 233, 162, 26, 4, 113, 41, 16, 213, 63, 193, 68, 124, 115, 255, 148,
      162, 157, 221, 18, 104, 19, 27, 78, 211, 13, 29, 190, 7]"
  by code_simp

text \<open>
  The skip: when \<^verbatim>\<open>processNeuralStep\<close> succeeds with at least four bytes, their
  little-endian value modulo 1000 is added to the counter; otherwise the counter stays.
\<close>

lemma runNPUStep_skip:
  "npu_present m \<Longrightarrow>
     hashesCompleted (runNPUStep npu m) =
       (case npu (runNPUStep_vmState (hashesCompleted m)) of
          None \<Rightarrow> hashesCompleted m
        | Some npuResult \<Rightarrow>
            if 4 \<le> length npuResult
            then hashesCompleted m + ucast (le_word32 npuResult mod 1000)
            else hashesCompleted m)"
  by (simp add: runNPUStep_def Let_def split: option.split)

text \<open>
  C4: the claim asks for the hash repeated cyclically over bytes 8 to 2047. At counter 150
  the state built by the code has 0 at byte 40, where the repeated hash has its first
  byte, 85: the code writes the hash once and leaves the other 2008 bytes zero.
\<close>

theorem runNPUStep_vmState_not_repeated:
  "runNPUStep_vmState 150 ! 40 = 0 \<and> npu_state_spec 150 ! 40 = 85
   \<and> runNPUStep_vmState 150 \<noteq> npu_state_spec 150"
proof -
  have a: "runNPUStep_vmState 150 ! 40 = 0"
    by (simp add: runNPUStep_vmState_eq nth_append length_le_bytes64 length_sha256)
  have b: "npu_state_spec 150 ! 40 = 85"
    by (simp add: npu_state_spec_def nth_append length_le_bytes64 sha256_counter_150)
  from a b show ?thesis by auto
qed

section \<open>Mobile mixing\<close>









section \<open>Policy decisions\<close>

text \<open>
  C2, as stated, fails twice. With battery 90, charging and 55 degrees the table of
  section 4.3 gives LIGHT, but the freshly recomputed permission is false (the
  temperature is not below 50) and the first test of
  \<^verbatim>\<open>determineOptimalIntensity\<close> returns DISABLED. With battery 85, charging and
  42 degrees the function returns LIGHT, not MEDIUM: the test is
  \<^verbatim>\<open>batteryLevel_ > 85\<close>.
\<close>

theorem determineOptimalIntensity_table_counterexample:
  "determineOptimalIntensity
     (updatePowerState \<lparr>batteryPct = 90, charging = True, tempC = 55\<rparr> AndroidPowerManager_new)
     \<noteq> policy_table_4_3 90 True 55
   \<and> determineOptimalIntensity
     (updatePowerState \<lparr>batteryPct = 85, charging = True, tempC = 42\<rparr> AndroidPowerManager_new)
     \<noteq> MEDIUM"
  by (simp add: determineOptimalIntensity_def updatePowerState_def updateMiningPermission_def
      policy_table_4_3_def AndroidPowerManager_new_def)

text \<open>
  C2, amended: after a power-state update from any snapshot, whatever the manager held
  before, \<^verbatim>\<open>determineOptimalIntensity\<close> returns DISABLED when not charging, when
  the battery is below 80 or when the temperature is 50 degrees or more; otherwise LIGHT
  above 45 degrees; otherwise FULL when the battery is above 95 and the temperature below
  40; otherwise MEDIUM when the battery is above 85; otherwise LIGHT. Battery 85,
  charging, 42 degrees yields LIGHT.
\<close>

theorem determineOptimalIntensity_after_update:
  "determineOptimalIntensity (updatePowerState \<lparr>batteryPct = b, charging = c, tempC = t\<rparr> pm) =
     (if \<not> c then DISABLED
      else if b < 80 then DISABLED
      else if t \<ge> 50 then DISABLED
      else if t > 45 then LIGHT
      else if b > 95 \<and> t < 40 then FULL
      else if b > 85 then MEDIUM
      else LIGHT)
   \<and> determineOptimalIntensity
       (updatePowerState \<lparr>batteryPct = 85, charging = True, tempC = 42\<rparr> pm) = LIGHT"
  by (simp add: determineOptimalIntensity_def updatePowerState_def updateMiningPermission_def)

theorem determineOptimalIntensity_after_update_witness:
  "determineOptimalIntensity
     (updatePowerState \<lparr>batteryPct = 90, charging = True, tempC = 42\<rparr> AndroidPowerManager_new)
     = MEDIUM
   \<and> determineOptimalIntensity
     (updatePowerState \<lparr>batteryPct = 100, charging = True, tempC = 30\<rparr> AndroidPowerManager_new)
     = FULL
   \<and> determineOptimalIntensity
     (updatePowerState \<lparr>batteryPct = 90, charging = True, tempC = 55\<rparr> AndroidPowerManager_new)
     = DISABLED"
  using determineOptimalIntensity_after_update [of 90 True 42 AndroidPowerManager_new]
    determineOptimalIntensity_after_update [of 100 True 30 AndroidPowerManager_new]
    determineOptimalIntensity_after_update [of 90 True 55 AndroidPowerManager_new]
  by simp

text \<open>
  C6: after every power-state update from a snapshot, \<^verbatim>\<open>canStartMining\<close> is true
  exactly when the device is charging, the battery is at 80 or more and the temperature
  is below 50; \<^verbatim>\<open>shouldStopMining\<close> is true exactly when mining is not permitted,
  or the battery is below 20, or the temperature is above 50.
\<close>

theorem mining_permission_after_update:
  "canStartMining (updatePowerState snap pm)
     = (charging snap \<and> batteryPct snap \<ge> 80 \<and> tempC snap < 50)
   \<and> shouldStopMining (updatePowerState snap pm)
     = (\<not> canStartMining (updatePowerState snap pm) \<or> batteryPct snap < 20 \<or> tempC snap > 50)"
  by (simp add: canStartMining_def shouldStopMining_def updatePowerState_def
      updateMiningPermission_def)

theorem mining_permission_after_update_witness:
  "canStartMining
     (updatePowerState \<lparr>batteryPct = 100, charging = True, tempC = 30\<rparr> AndroidPowerManager_new)
   \<and> \<not> shouldStopMining
     (updatePowerState \<lparr>batteryPct = 100, charging = True, tempC = 30\<rparr> AndroidPowerManager_new)
   \<and> shouldStopMining
     (updatePowerState \<lparr>batteryPct = 50, charging = False, tempC = 35\<rparr> AndroidPowerManager_new)"
  using mining_permission_after_update
      [of "\<lparr>batteryPct = 100, charging = True, tempC = 30\<rparr>" AndroidPowerManager_new]
    mining_permission_after_update
      [of "\<lparr>batteryPct = 50, charging = False, tempC = 35\<rparr>" AndroidPowerManager_new]
  by simp

section \<open>Generating and validating a thermal proof\<close>


















section \<open>The thermal history\<close>







section \<open>Cheat detection\<close>











section \<open>The foreign-function surface\<close>

text \<open>
  C9, as stated, fails for the temperature: with a zero handle
  \<^verbatim>\<open>getCurrentTemperature\<close> returns 30, not zero.
\<close>

theorem zero_handle_temperature_counterexample:
  "getCurrentTemperature 0 Map.empty = Some (30, Map.empty) \<and> (30 :: real) \<noteq> 0"
  by (simp add: getCurrentTemperature_def)

text \<open>
  C9, amended: \<^verbatim>\<open>createMiner\<close> returns a zero handle when initialization fails or
  throws, and every other operation invoked with a zero handle returns 0.0 for the three
  hash rates, false for the booleans, 0 for the thermal proof and for the NPU
  utilization, and 30.0 for the temperature, and leaves every miner object as it was.
\<close>

theorem zero_handle_sentinels:
  "createMiner addr InitFailed heap = (0, heap)
   \<and> createMiner addr InitThrew heap = (0, heap)
   \<and> startMining 0 intensity heap = Some (False, heap)
   \<and> stopMining 0 heap = Some (False, heap)
   \<and> getHashRate 0 heap = Some (0, heap)
   \<and> getRandomXHashRate 0 heap = Some (0, heap)
   \<and> getMobileXHashRate 0 heap = Some (0, heap)
   \<and> getCurrentTemperature 0 heap = Some (30, heap)
   \<and> getNPUUtilization 0 heap = Some (0, heap)
   \<and> isMining 0 heap = Some (False, heap)
   \<and> jni_generateThermalProof 0 heap = Some (0, heap)
   \<and> configureNPU 0 heap = Some heap
   \<and> destroyMiner 0 heap = Some heap"
  by (simp add: createMiner_def startMining_def stopMining_def getHashRate_def
      getRandomXHashRate_def getMobileXHashRate_def getCurrentTemperature_def
      getNPUUtilization_def isMining_def jni_generateThermalProof_def configureNPU_def
      destroyMiner_def)

theorem zero_handle_sentinels_witness:
  "createMiner 4096 InitFailed Map.empty = (0, Map.empty)
   \<and> isMining 0 Map.empty = Some (False, Map.empty)
   \<and> getCurrentTemperature 0 Map.empty = Some (30, Map.empty)"
  using zero_handle_sentinels [of 4096 Map.empty 0] by simp

end
